theory Spec2Isabelle
  imports Complex_Main
begin

section \<open>Python values used by main.py\<close>

text \<open>
  A Python \<open>str\<close> is modelled as a HOL \<open>string\<close>: one \<open>char\<close> per code point, so
  the model covers the strings whose code points are below 256. In that range the
  decimal digits that the regular-expression class \<open>\d\<close> accepts are exactly
  \<open>0\<close> .. \<open>9\<close>.

  Exceptions are values: a computation that can raise returns \<open>py_error + 'a\<close>, with
  \<open>Inl\<close> the exception that escapes.
\<close>

datatype py_error =
    ValueError
  | KeyError
  | OverflowError
  | IntegrityError
  | InvalidSignatureError
  | ProviderError
  | SdkError

subsection \<open>Strings\<close>

text \<open>\<open>s.startswith(sub)\<close>.\<close>

fun startswith :: "string \<Rightarrow> string \<Rightarrow> bool" where
  "startswith s [] = True"
| "startswith [] (c # sub) = False"
| "startswith (x # s) (c # sub) = (x = c \<and> startswith s sub)"

text \<open>
  \<open>sub in s\<close> on two strings: some position of \<open>s\<close> starts an occurrence of
  \<open>sub\<close>. Comparison of characters is exact, so the test is case-sensitive.
\<close>

fun py_in :: "string \<Rightarrow> string \<Rightarrow> bool" where
  "py_in sub [] = (sub = [])"
| "py_in sub (x # s) = (startswith (x # s) sub \<or> py_in sub s)"

text \<open>
  \<open>str.isspace\<close> on one character, for code points below 256: the ASCII controls
  9 .. 13 and 28 .. 31, the space, NEL (133) and the no-break space (160).
\<close>

definition py_isspace :: "char \<Rightarrow> bool" where
  "py_isspace c =
     (let n = (of_char c :: nat)
      in (9 \<le> n \<and> n \<le> 13) \<or> (28 \<le> n \<and> n \<le> 32) \<or> n = 133 \<or> n = 160)"

text \<open>\<open>s.strip()\<close>: whitespace removed at both ends.\<close>

definition py_strip :: "string \<Rightarrow> string" where
  "py_strip s = rev (dropWhile py_isspace (rev (dropWhile py_isspace s)))"

text \<open>
  \<open>int(s)\<close> for the strings the date pattern captures: decimal digits, possibly
  after a blank. \<open>int\<close> strips surrounding whitespace before reading the digits.
\<close>

definition digit_val :: "char \<Rightarrow> int" where
  "digit_val c = int (of_char c) - 48"

definition py_int :: "string \<Rightarrow> int" where
  "py_int s = foldl (\<lambda>a c. 10 * a + digit_val c) 0 (py_strip s)"

text \<open>
  \<open>'%0wd' % n\<close> for a non-negative \<open>n\<close>: the decimal digits of \<open>n\<close>, padded with
  zeros on the left up to width \<open>w\<close>.
\<close>

definition digit_char :: "nat \<Rightarrow> char" where
  "digit_char k = char_of (48 + k)"

fun decimal_acc :: "nat \<Rightarrow> string \<Rightarrow> string" where
  "decimal_acc n acc =
     (if n < 10 then digit_char n # acc
      else decimal_acc (n div 10) (digit_char (n mod 10) # acc))"

declare decimal_acc.simps [simp del]

definition zero_padded :: "nat \<Rightarrow> int \<Rightarrow> string" where
  "zero_padded w n =
     (let ds = decimal_acc (nat n) [] in replicate (w - length ds) (CHR ''0'') @ ds)"

subsection \<open>The calendar of the datetime module\<close>

text \<open>
  A \<open>datetime.date\<close>. The \<open>datetime\<close> values of main.py all come from
  \<open>strptime\<close> with the format \<open>%Y-%m-%d\<close>, so their time of day is midnight and
  they are modelled by their date.
\<close>

record date =
  year :: int
  month :: int
  day :: int

definition is_leap :: "int \<Rightarrow> bool" where
  "is_leap y = (y mod 4 = 0 \<and> (y mod 100 \<noteq> 0 \<or> y mod 400 = 0))"

definition DAYS_IN_MONTH :: "int list" where
  "DAYS_IN_MONTH = [-1, 31, 28, 31, 30, 31, 30, 31, 31, 30, 31, 30, 31]"

definition DAYS_BEFORE_MONTH :: "int list" where
  "DAYS_BEFORE_MONTH = [-1, 0, 31, 59, 90, 120, 151, 181, 212, 243, 273, 304, 334]"

definition days_in_month :: "int \<Rightarrow> int \<Rightarrow> int" where
  "days_in_month y m = (if m = 2 \<and> is_leap y then 29 else DAYS_IN_MONTH ! nat m)"

definition days_before_year :: "int \<Rightarrow> int" where
  "days_before_year y' =
     (let y = y' - 1 in y * 365 + y div 4 - y div 100 + y div 400)"

definition days_before_month :: "int \<Rightarrow> int \<Rightarrow> int" where
  "days_before_month y m =
     DAYS_BEFORE_MONTH ! nat m + (if m > 2 \<and> is_leap y then 1 else 0)"

text \<open>
  The check of the \<open>date\<close> constructor: year 1 .. 9999, month 1 .. 12, and a day
  that the month has; anything else raises ValueError.
\<close>

definition valid_date :: "date \<Rightarrow> bool" where
  "valid_date d =
     (1 \<le> year d \<and> year d \<le> 9999 \<and> 1 \<le> month d \<and> month d \<le> 12 \<and>
      1 \<le> day d \<and> day d \<le> days_in_month (year d) (month d))"

definition date_new :: "int \<Rightarrow> int \<Rightarrow> int \<Rightarrow> py_error + date" where
  "date_new y m d =
     (let r = \<lparr>year = y, month = m, day = d\<rparr>
      in if valid_date r then Inr r else Inl ValueError)"

text \<open>\<open>date.toordinal\<close>: 1 for 0001-01-01.\<close>

definition toordinal :: "date \<Rightarrow> int" where
  "toordinal d =
     days_before_year (year d) + days_before_month (year d) (month d) + day d"

text \<open>
  \<open>date.fromordinal\<close>, as the module's \<open>_ord2ymd\<close> computes it; an ordinal outside
  1 .. 3652059 (9999-12-31) is refused.
\<close>

definition ord2ymd :: "int \<Rightarrow> date" where
  "ord2ymd n0 =
     (let n = n0 - 1;
          n400 = n div 146097; n = n mod 146097;
          n100 = n div 36524; n = n mod 36524;
          n4 = n div 1461; n = n mod 1461;
          n1 = n div 365; n = n mod 365;
          y = n400 * 400 + 1 + n100 * 100 + n4 * 4 + n1
      in if n1 = 4 \<or> n100 = 4 then \<lparr>year = y - 1, month = 12, day = 31\<rparr>
         else
           let leapyear = (n1 = 3 \<and> (n4 \<noteq> 24 \<or> n100 = 3));
               m = (n + 50) div 32;
               preceding = DAYS_BEFORE_MONTH ! nat m + (if m > 2 \<and> leapyear then 1 else 0)
           in if preceding > n
              then \<lparr>year = y, month = m - 1,
                    day = n - (preceding - (DAYS_IN_MONTH ! nat (m - 1)
                                 + (if m - 1 = 2 \<and> leapyear then 1 else 0))) + 1\<rparr>
              else \<lparr>year = y, month = m, day = n - preceding + 1\<rparr>)"

definition fromordinal :: "int \<Rightarrow> py_error + date" where
  "fromordinal n = (if 1 \<le> n \<and> n \<le> 3652059 then Inr (ord2ymd n) else Inl OverflowError)"

text \<open>\<open>d - timedelta(k)\<close> on a date.\<close>

definition date_minus_days :: "date \<Rightarrow> int \<Rightarrow> py_error + date" where
  "date_minus_days d k = fromordinal (toordinal d - k)"

text \<open>\<open>str(d)\<close> of a date: \<open>'%04d-%02d-%02d'\<close>.\<close>

definition date_str :: "date \<Rightarrow> string" where
  "date_str d =
     zero_padded 4 (year d) @ ''-'' @ zero_padded 2 (month d) @ ''-'' @ zero_padded 2 (day d)"

text \<open>
  Comparison of two naive datetimes at midnight: year first, then month, then day.
\<close>

definition datetime_lt :: "date \<Rightarrow> date \<Rightarrow> bool" where
  "datetime_lt a b =
     (year a < year b \<or>
      (year a = year b \<and> (month a < month b \<or> (month a = month b \<and> day a < day b))))"

definition datetime_ge :: "date \<Rightarrow> date \<Rightarrow> bool" where
  "datetime_ge a b = (\<not> datetime_lt a b)"

subsection \<open>strptime with the format %Y-%m-%d\<close>

text \<open>
  \<open>datetime.strptime(s, '%Y-%m-%d')\<close> compiles the format to the regular expression

  \<^verbatim>\<open>(?P<Y>\d\d\d\d)-(?P<m>1[0-2]|0[1-9]|[1-9])-(?P<d>3[0-1]|[1-2]\d|0[1-9]|[1-9]| [1-9])\<close>

  and matches it at the start of \<open>s\<close>. Each directive is a list of alternatives,
  tried in order; an alternative is a sequence of character classes, and a class
  is the string of the characters it accepts.
\<close>

type_synonym char_class = string

definition cls_digit :: char_class where
  "cls_digit = ''0123456789''"

definition cls_nonzero :: char_class where
  "cls_nonzero = ''123456789''"

fun match_classes :: "char_class list \<Rightarrow> string \<Rightarrow> (string \<times> string) option" where
  "match_classes [] s = Some ([], s)"
| "match_classes (k # ks) [] = None"
| "match_classes (k # ks) (c # s) =
     (if c \<in> set k
      then (case match_classes ks s of None \<Rightarrow> None | Some (m, r) \<Rightarrow> Some (c # m, r))
      else None)"

text \<open>
  Every way one directive matches a prefix of the text, first choice first: the matched
  text with what is left.
\<close>

definition match_alts :: "char_class list list \<Rightarrow> string \<Rightarrow> (string \<times> string) list" where
  "match_alts alts s = List.map_filter (\<lambda>a. match_classes a s) alts"

definition re_Y :: "char_class list list" where
  "re_Y = [[cls_digit, cls_digit, cls_digit, cls_digit]]"

definition re_m :: "char_class list list" where
  "re_m = [[''1'', ''012''], [''0'', cls_nonzero], [cls_nonzero]]"

definition re_d :: "char_class list list" where
  "re_d = [[''3'', ''01''], [''12'', cls_digit], [''0'', cls_nonzero], [cls_nonzero],
           ['' '', cls_nonzero]]"

definition re_dash :: "char_class list list" where
  "re_dash = [[''-'']]"

text \<open>
  The matches of the whole pattern in the order a backtracking matcher finds them:
  the three captured groups and the unmatched rest. \<open>re.match\<close> returns the first.
\<close>

definition format_matches :: "string \<Rightarrow> ((string \<times> string \<times> string) \<times> string) list" where
  "format_matches s =
     [((Y, m, d), r5).
        (Y, r1) \<leftarrow> match_alts re_Y s,
        (dash1, r2) \<leftarrow> match_alts re_dash r1,
        (m, r3) \<leftarrow> match_alts re_m r2,
        (dash2, r4) \<leftarrow> match_alts re_dash r3,
        (d, r5) \<leftarrow> match_alts re_d r4]"

text \<open>
  \<open>strptime\<close> raises ValueError when the pattern does not match, when the match
  leaves text unconverted, and when the date constructor refuses the numbers.
\<close>

definition strptime :: "string \<Rightarrow> py_error + date" where
  "strptime s =
     (case format_matches s of
        [] \<Rightarrow> Inl ValueError
      | ((Y, m, d), rest) # other \<Rightarrow>
          if rest \<noteq> [] then Inl ValueError
          else date_new (py_int Y) (py_int m) (py_int d))"

text \<open>
  \<open>is_valid_date_format\<close> (lines 48-53): True when \<open>strptime\<close> returns, False when it
  raises ValueError. \<open>strptime\<close> raises nothing else on a string.
\<close>

definition is_valid_date_format :: "string \<Rightarrow> bool" where
  "is_valid_date_format date_string =
     (case strptime date_string of Inr parsed \<Rightarrow> True | Inl err \<Rightarrow> False)"

text \<open>
  The reading of "the exact pattern YYYY-MM-DD with a real calendar date" that the
  validator is compared with: ten characters, digits except for the two dashes, whose
  three numbers are a date of the calendar.
\<close>

definition exact_pattern :: "string \<Rightarrow> bool" where
  "exact_pattern s =
     (length s = 10 \<and> s ! 4 = CHR ''-'' \<and> s ! 7 = CHR ''-'' \<and>
      list_all (\<lambda>i. s ! i \<in> set cls_digit) [0, 1, 2, 3, 5, 6, 8, 9])"

definition pattern_fields :: "string \<Rightarrow> date" where
  "pattern_fields s =
     \<lparr>year = py_int (take 4 s), month = py_int (take 2 (drop 5 s)), day = py_int (drop 8 s)\<rparr>"

definition exact_calendar_date :: "string \<Rightarrow> bool" where
  "exact_calendar_date s = (exact_pattern s \<and> valid_date (pattern_fields s))"

section \<open>The record store\<close>

text \<open>
  The table \<open>search_records\<close> (lines 42-45): \<open>id\<close> is the integer primary key,
  \<open>ticker\<close> is a non-null string with a UNIQUE constraint. The store holds the rows
  in the order they were inserted and the next value of the key's sequence.
\<close>

record SearchRecord =
  record_id :: int
  ticker :: string

record store =
  search_records :: "SearchRecord list"
  next_id :: int

definition empty_store :: store where
  "empty_store = \<lparr>search_records = [], next_id = 1\<rparr>"

definition tickers :: "store \<Rightarrow> string list" where
  "tickers st = map ticker (search_records st)"

text \<open>
  \<open>SearchRecord.query.filter_by(ticker=v).first()\<close>. The value comes from the
  request and may be None; then the filter is \<open>ticker IS NULL\<close>, which no row of a
  non-null column satisfies.
\<close>

definition filter_by_ticker_first :: "store \<Rightarrow> string option \<Rightarrow> SearchRecord option" where
  "filter_by_ticker_first st v =
     (case v of
        None \<Rightarrow> None
      | Some t \<Rightarrow> find (\<lambda>r. ticker r = t) (search_records st))"

text \<open>
  \<open>db.session.add(SearchRecord(ticker=t)); db.session.commit()\<close>: the database
  assigns the key and refuses a second row with the same ticker.
\<close>

definition add_commit :: "store \<Rightarrow> string \<Rightarrow> py_error + store" where
  "add_commit st t =
     (if t \<in> set (tickers st) then Inl IntegrityError
      else Inr \<lparr>search_records = search_records st @ [\<lparr>record_id = next_id st, ticker = t\<rparr>],
                next_id = next_id st + 1\<rparr>)"

text \<open>\<open>db.session.delete(r); db.session.commit()\<close>: the row with the key of \<open>r\<close> goes.\<close>

definition delete_commit :: "store \<Rightarrow> SearchRecord \<Rightarrow> store" where
  "delete_commit st r =
     st\<lparr>search_records := filter (\<lambda>x. record_id x \<noteq> record_id r) (search_records st)\<rparr>"

text \<open>Lines 111-115 of \<open>search_price\<close>: the ticker is stored the first time it is found.\<close>

definition insert_if_absent :: "store \<Rightarrow> string \<Rightarrow> py_error + store" where
  "insert_if_absent st t =
     (case filter_by_ticker_first st (Some t) of
        None \<Rightarrow> add_commit st t
      | Some ticker_record \<Rightarrow> Inr st)"

text \<open>
  What the schema promises of every state of the table: keys are unique and below the
  sequence's next value, tickers are unique.
\<close>

definition store_ok :: "store \<Rightarrow> bool" where
  "store_ok st =
     (distinct (map record_id (search_records st)) \<and> distinct (tickers st) \<and>
      list_all (\<lambda>r. record_id r < next_id st) (search_records st))"

section \<open>The price series and its moving averages\<close>

text \<open>
  A float is a real number or NaN (\<open>None\<close>); rounding and the infinities are outside
  the model. A row of the provider's table has its date and the four prices.
\<close>

type_synonym pyfloat = "real option"

record price_row =
  row_date :: date
  row_Open :: pyfloat
  row_High :: pyfloat
  row_Low :: pyfloat
  row_Close :: pyfloat

text \<open>
  \<open>yf.download(ticker, start=begin_date, end=end_date)\<close>: the provider is outside the
  repository, so it is a parameter of the handlers.
\<close>

type_synonym provider = "string \<Rightarrow> string \<Rightarrow> string \<Rightarrow> py_error + price_row list"

text \<open>
  \<open>series.rolling(window=w).mean()\<close>. The window slides over the column: after row
  \<open>i\<close> it holds the values of rows \<open>i - w + 1 .. i\<close> that exist. The mean of a window
  is taken over its values that are not NaN, and is NaN unless at least
  \<open>min_periods\<close> of them are there; \<open>rolling(window=w)\<close> sets \<open>min_periods\<close> to \<open>w\<close>.
\<close>

definition slide :: "nat \<Rightarrow> pyfloat list \<Rightarrow> pyfloat \<Rightarrow> pyfloat list" where
  "slide w win x = (let b = win @ [x] in drop (length b - w) b)"

definition window_mean :: "nat \<Rightarrow> pyfloat list \<Rightarrow> pyfloat" where
  "window_mean min_periods win =
     (let obs = List.map_filter (\<lambda>v. v) win
      in if min_periods \<le> length obs \<and> obs \<noteq> []
         then Some (sum_list obs / real (length obs)) else None)"

fun rolling_from :: "nat \<Rightarrow> pyfloat list \<Rightarrow> pyfloat list \<Rightarrow> pyfloat list" where
  "rolling_from w win [] = []"
| "rolling_from w win (x # xs) =
     (let win' = slide w win x in window_mean w win' # rolling_from w win' xs)"

definition rolling_mean :: "nat \<Rightarrow> pyfloat list \<Rightarrow> pyfloat list" where
  "rolling_mean w xs = rolling_from w [] xs"

text \<open>
  The arithmetic mean of a list of floats, as the words "unweighted arithmetic mean"
  say it: the sum divided by the count, NaN as soon as one value is NaN.
\<close>

definition arithmetic_mean :: "pyfloat list \<Rightarrow> pyfloat" where
  "arithmetic_mean vs =
     (if vs = [] \<or> None \<in> set vs then None
      else Some (sum_list (map the vs) / real (length vs)))"

text \<open>
  The figure of lines 118-146: the title, the row labels (the dates as strings), the
  candlestick's four columns and the two moving-average lines.
\<close>

record chart =
  chart_title :: string
  chart_x :: "string list"
  chart_open :: "pyfloat list"
  chart_close :: "pyfloat list"
  chart_high :: "pyfloat list"
  chart_low :: "pyfloat list"
  five_day_ma :: "pyfloat list"
  twenty_day_ma :: "pyfloat list"

definition build_chart :: "string \<Rightarrow> price_row list \<Rightarrow> chart" where
  "build_chart t stock_price =
     \<lparr>chart_title = t,
      chart_x = map (\<lambda>r. date_str (row_date r)) stock_price,
      chart_open = map row_Open stock_price,
      chart_close = map row_Close stock_price,
      chart_high = map row_High stock_price,
      chart_low = map row_Low stock_price,
      five_day_ma = rolling_mean 5 (map row_Close stock_price),
      twenty_day_ma = rolling_mean 20 (map row_Close stock_price)\<rparr>"

section \<open>The request handlers\<close>

text \<open>
  The four messages that the handlers flash, in the order of the source: the date
  format (line 79), the date range (line 82), the ticker format (line 91) and the
  ticker that was not found (line 108).
\<close>

datatype flash_msg =
    Flash_date_format
  | Flash_date_range
  | Flash_ticker_format
  | Flash_ticker_not_found

text \<open>What \<open>url_for\<close> builds: the home route, or the price route with its arguments.\<close>

datatype url = Home_url | Search_price_url string string string

datatype response =
    Redirect url
  | Render_index "SearchRecord list"
  | Render_price chart
  | Abort nat
  | Text_OK

text \<open>A reply is the messages flashed while the request ran and the response.\<close>

type_synonym reply = "flash_msg list \<times> response"

text \<open>
  The status line of what the client receives: an exception that escapes a handler is
  a server error.
\<close>

fun http_status :: "py_error + response \<Rightarrow> nat" where
  "http_status (Inl err) = 500"
| "http_status (Inr (Redirect u)) = 302"
| "http_status (Inr (Abort code)) = code"
| "http_status (Inr other) = 200"

subsection \<open>The home route\<close>

text \<open>
  A request of the home route: a GET, or a POST with the validity of its CSRF token and
  the three text fields of the form (None for a field the request does not carry).
\<close>

datatype home_request =
    Home_GET
  | Home_POST bool "string option" "string option" "string option"

text \<open>\<open>DataRequired\<close> on a text field: the data is not blank.\<close>

definition data_required :: "string \<Rightarrow> bool" where
  "data_required s = (py_strip s \<noteq> [])"

text \<open>
  \<open>form.validate_on_submit()\<close>: the request is a POST and every validator passes;
  the result carries the data of the three fields.
\<close>

fun validate_on_submit :: "home_request \<Rightarrow> (string \<times> string \<times> string) option" where
  "validate_on_submit Home_GET = None"
| "validate_on_submit (Home_POST csrf_ok (Some t) (Some b) (Some e)) =
     (if csrf_ok \<and> data_required t \<and> data_required b \<and> data_required e
      then Some (t, b, e) else None)"
| "validate_on_submit (Home_POST csrf_ok t b e) = None"

text \<open>Line 74: the test of the ticker's format.\<close>

definition ticker_format_ok :: "string \<Rightarrow> bool" where
  "ticker_format_ok searched_ticker =
     (py_in ''.TW'' searched_ticker \<or> py_in ''.TWO'' searched_ticker)"

text \<open>Line 81: the test that sends the request back, on two strings that parse.\<close>

definition begin_not_before_end :: "string \<Rightarrow> string \<Rightarrow> py_error + bool" where
  "begin_not_before_end begin_date end_date =
     (case strptime begin_date of
        Inl err \<Rightarrow> Inl err
      | Inr b \<Rightarrow>
          (case strptime end_date of
             Inl err \<Rightarrow> Inl err
           | Inr e \<Rightarrow> Inr (datetime_ge b e)))"

definition home :: "store \<Rightarrow> home_request \<Rightarrow> py_error + reply" where
  "home st req =
     (case validate_on_submit req of
        None \<Rightarrow> Inr ([], Render_index (search_records st))
      | Some (searched_ticker, begin_date, end_date) \<Rightarrow>
          if ticker_format_ok searched_ticker then
            if \<not> is_valid_date_format begin_date \<or> \<not> is_valid_date_format end_date
            then Inr ([Flash_date_format], Redirect Home_url)
            else
              (case begin_not_before_end begin_date end_date of
                 Inl err \<Rightarrow> Inl err
               | Inr True \<Rightarrow> Inr ([Flash_date_range], Redirect Home_url)
               | Inr False \<Rightarrow>
                   Inr ([], Redirect (Search_price_url searched_ticker begin_date end_date)))
          else Inr ([Flash_ticker_format], Redirect Home_url))"

subsection \<open>The price route\<close>

text \<open>
  Lines 98-103: the two query parameters, or the 90 days before today when one of them
  is missing. The clock is read twice, at line 102 and at line 103.
\<close>

definition default_window :: "date \<Rightarrow> date \<Rightarrow> py_error + (string \<times> string)" where
  "default_window today_102 today_103 =
     (case date_minus_days today_102 90 of
        Inl err \<Rightarrow> Inl err
      | Inr first_day \<Rightarrow> Inr (date_str first_day, date_str today_103))"

definition date_range ::
  "date \<Rightarrow> date \<Rightarrow> string option \<Rightarrow> string option \<Rightarrow> py_error + (string \<times> string)" where
  "date_range today_102 today_103 begin_date end_date =
     (case (begin_date, end_date) of
        (Some b, Some e) \<Rightarrow> Inr (b, e)
      | other \<Rightarrow> default_window today_102 today_103)"

definition search_price ::
  "provider \<Rightarrow> date \<Rightarrow> date \<Rightarrow> store \<Rightarrow> string \<Rightarrow> string option \<Rightarrow> string option
     \<Rightarrow> (py_error + reply) \<times> store" where
  "search_price yf today_102 today_103 st t begin_date end_date =
     (case date_range today_102 today_103 begin_date end_date of
        Inl err \<Rightarrow> (Inl err, st)
      | Inr (b, e) \<Rightarrow>
          (case yf t b e of
             Inl err \<Rightarrow> (Inl err, st)
           | Inr stock_price \<Rightarrow>
               if stock_price = []
               then (Inr ([Flash_ticker_not_found], Redirect Home_url), st)
               else
                 (case insert_if_absent st t of
                    Inl err \<Rightarrow> (Inl err, st)
                  | Inr st' \<Rightarrow> (Inr ([], Render_price (build_chart t stock_price)), st'))))"

subsection \<open>The delete route\<close>

definition delete_record :: "store \<Rightarrow> string option \<Rightarrow> reply \<times> store" where
  "delete_record st ticker_arg =
     (case filter_by_ticker_first st ticker_arg of
        Some deleted_ticker \<Rightarrow> (([], Redirect Home_url), delete_commit st deleted_ticker)
      | None \<Rightarrow> (([], Redirect Home_url), st))"

subsection \<open>The states of the store that the routes can reach\<close>

inductive reachable :: "store \<Rightarrow> bool" where
  created: "reachable empty_store"
| searched:
    "reachable st \<Longrightarrow> reachable (snd (search_price yf today_102 today_103 st t begin_date end_date))"
| deleted: "reachable st \<Longrightarrow> reachable (snd (delete_record st ticker_arg))"

section \<open>The webhook\<close>

text \<open>
  The messaging SDK is outside the repository. Of \<open>handler.handle(body, signature)\<close>
  the model keeps the order of its steps: the signature of the body is checked against
  the channel secret, InvalidSignatureError is raised when the check fails, and only
  then is the body parsed and each event passed to the function registered for it.
  The check, the parser and the call of the reply API are parameters.
\<close>

datatype webhook_event = Text_message string string | Other_event

record line_sdk =
  signature_valid :: "string \<Rightarrow> string \<Rightarrow> bool"
  parse_events :: "string \<Rightarrow> py_error + webhook_event list"
  reply_api :: "string \<Rightarrow> string \<Rightarrow> py_error option"

datatype log_line = Log_request_body string | Log_invalid_signature

record line_state =
  app_log :: "log_line list"
  sent_replies :: "(string \<times> string) list"

text \<open>
  \<open>handle_message\<close> (lines 180-189): the text of the event is sent back with the
  event's reply token; a failure of the call escapes.
\<close>

definition handle_message :: "line_sdk \<Rightarrow> string \<Rightarrow> string \<Rightarrow> line_state \<Rightarrow> (py_error + unit) \<times> line_state" where
  "handle_message sdk reply_token message_text st =
     (case reply_api sdk reply_token message_text of
        Some err \<Rightarrow> (Inl err, st)
      | None \<Rightarrow> (Inr (), st\<lparr>sent_replies := sent_replies st @ [(reply_token, message_text)]\<rparr>))"

fun dispatch :: "line_sdk \<Rightarrow> webhook_event list \<Rightarrow> line_state \<Rightarrow> (py_error + unit) \<times> line_state" where
  "dispatch sdk [] st = (Inr (), st)"
| "dispatch sdk (Other_event # evs) st = dispatch sdk evs st"
| "dispatch sdk (Text_message reply_token message_text # evs) st =
     (case handle_message sdk reply_token message_text st of
        (Inl err, st') \<Rightarrow> (Inl err, st')
      | (Inr u, st') \<Rightarrow> dispatch sdk evs st')"

definition handler_handle :: "line_sdk \<Rightarrow> string \<Rightarrow> string \<Rightarrow> line_state \<Rightarrow> (py_error + unit) \<times> line_state" where
  "handler_handle sdk body signature st =
     (if \<not> signature_valid sdk body signature then (Inl InvalidSignatureError, st)
      else
        (case parse_events sdk body of
           Inl err \<Rightarrow> (Inl err, st)
         | Inr events \<Rightarrow> dispatch sdk events st))"

text \<open>
  \<open>callback\<close> (lines 161-177). \<open>request.headers[name]\<close> raises KeyError when the
  request has no such header; the header is None then.
\<close>

definition callback ::
  "line_sdk \<Rightarrow> string option \<Rightarrow> string \<Rightarrow> line_state \<Rightarrow> (py_error + response) \<times> line_state" where
  "callback sdk signature_header body st =
     (case signature_header of
        None \<Rightarrow> (Inl KeyError, st)
      | Some signature \<Rightarrow>
          (case handler_handle sdk body signature
                  (st\<lparr>app_log := app_log st @ [Log_request_body body]\<rparr>) of
             (Inl err, st') \<Rightarrow>
               if err = InvalidSignatureError
               then (Inr (Abort 400), st'\<lparr>app_log := app_log st' @ [Log_invalid_signature]\<rparr>)
               else (Inl err, st')
           | (Inr u, st') \<Rightarrow> (Inr Text_OK, st')))"

section \<open>The ticker format\<close>

lemma startswith_iff: "startswith s sub \<longleftrightarrow> (\<exists>post. s = sub @ post)"
  by (induction s sub rule: startswith.induct) auto

lemma py_in_iff: "py_in sub s \<longleftrightarrow> (\<exists>pre post. s = pre @ sub @ post)"
proof (induction s)
  case Nil
  show ?case by auto
next
  case (Cons x s)
  show ?case
  proof
    assume "py_in sub (x # s)"
    then consider "startswith (x # s) sub" | "py_in sub s" by auto
    then show "\<exists>pre post. x # s = pre @ sub @ post"
    proof cases
      case 1
      then obtain post where "x # s = sub @ post" by (auto simp: startswith_iff)
      then have "x # s = [] @ sub @ post" by simp
      then show ?thesis by blast
    next
      case 2
      with Cons obtain pre post where "s = pre @ sub @ post" by auto
      then have "x # s = (x # pre) @ sub @ post" by simp
      then show ?thesis by blast
    qed
  next
    assume "\<exists>pre post. x # s = pre @ sub @ post"
    then obtain pre post where eq: "x # s = pre @ sub @ post" by blast
    show "py_in sub (x # s)"
    proof (cases pre)
      case Nil
      with eq have "startswith (x # s) sub" by (auto simp: startswith_iff)
      then show ?thesis by simp
    next
      case (Cons p pre')
      with eq have "s = pre' @ sub @ post" by simp
      with Cons.IH have "py_in sub s" by blast
      then show ?thesis by simp
    qed
  qed
qed

lemma home_ticker_branch:
  assumes "validate_on_submit req = Some (t, b, e)"
  shows "(home st req = Inr ([Flash_ticker_format], Redirect Home_url)) = (\<not> ticker_format_ok t)"
  using assms by (auto simp: home_def split: sum.splits bool.splits)

text \<open>
  C5. The test of line 74 accepts a ticker exactly when \<open>.TW\<close> or \<open>.TWO\<close> occurs in
  it, at any position and in this spelling: \<open>2330.TW\<close> and \<open>FOO.TWOBAR\<close> are
  accepted, \<open>2330\<close> and \<open>2330.tw\<close> are not. A submitted form is sent back with the
  message of line 91 exactly when the test fails.
\<close>

theorem ticker_format_is_substring_test:
  "(ticker_format_ok t \<longleftrightarrow>
      (\<exists>pre post. t = pre @ ''.TW'' @ post) \<or> (\<exists>pre post. t = pre @ ''.TWO'' @ post)) \<and>
   (\<forall>st req b e. validate_on_submit req = Some (t, b, e) \<longrightarrow>
      (home st req = Inr ([Flash_ticker_format], Redirect Home_url)) = (\<not> ticker_format_ok t)) \<and>
   ticker_format_ok ''2330.TW'' \<and> \<not> ticker_format_ok ''2330'' \<and>
   ticker_format_ok ''FOO.TWOBAR'' \<and> \<not> ticker_format_ok ''2330.tw''"
proof -
  have "ticker_format_ok t \<longleftrightarrow>
      (\<exists>pre post. t = pre @ ''.TW'' @ post) \<or> (\<exists>pre post. t = pre @ ''.TWO'' @ post)"
    unfolding ticker_format_ok_def py_in_iff ..
  moreover have "\<forall>st req b e. validate_on_submit req = Some (t, b, e) \<longrightarrow>
      (home st req = Inr ([Flash_ticker_format], Redirect Home_url)) = (\<not> ticker_format_ok t)"
    using home_ticker_branch by blast
  moreover have "ticker_format_ok ''2330.TW''" "\<not> ticker_format_ok ''2330''"
    "ticker_format_ok ''FOO.TWOBAR''" "\<not> ticker_format_ok ''2330.tw''"
    by (simp_all add: ticker_format_ok_def)
  ultimately show ?thesis by blast
qed

theorem ticker_format_is_substring_test_witness:
  "validate_on_submit
      (Home_POST True (Some ''2330'') (Some ''2023-01-01'') (Some ''2023-03-01''))
     = Some (''2330'', ''2023-01-01'', ''2023-03-01'') \<and>
   \<not> ticker_format_ok ''2330'' \<and>
   home empty_store (Home_POST True (Some ''2330'') (Some ''2023-01-01'') (Some ''2023-03-01''))
     = Inr ([Flash_ticker_format], Redirect Home_url)"
proof -
  have v: "validate_on_submit
      (Home_POST True (Some ''2330'') (Some ''2023-01-01'') (Some ''2023-03-01''))
     = Some (''2330'', ''2023-01-01'', ''2023-03-01'')"
    by (simp add: data_required_def py_strip_def py_isspace_def)
  have n: "\<not> ticker_format_ok ''2330''"
    by (simp add: ticker_format_ok_def)
  from ticker_format_is_substring_test [of "''2330''"] v n show ?thesis
    by blast
qed

section \<open>Facts about the store and the routes\<close>

lemma find_ticker_None: "find (\<lambda>r. ticker r = t) rs = None \<longleftrightarrow> t \<notin> set (map ticker rs)"
  by (induction rs) auto

lemma find_ticker_Some:
  "find (\<lambda>r. ticker r = t) rs = Some r \<Longrightarrow> r \<in> set rs \<and> ticker r = t"
  by (induction rs) (auto split: if_splits)

lemma filter_by_ticker_first_None:
  "filter_by_ticker_first st (Some t) = None \<longleftrightarrow> t \<notin> set (tickers st)"
  by (simp add: filter_by_ticker_first_def tickers_def find_ticker_None)

lemma filter_by_ticker_first_Some:
  "filter_by_ticker_first st v = Some r \<Longrightarrow> r \<in> set (search_records st) \<and> v = Some (ticker r)"
  by (auto simp: filter_by_ticker_first_def split: option.splits dest: find_ticker_Some)

lemma insert_if_absent_present:
  "t \<in> set (tickers st) \<Longrightarrow> insert_if_absent st t = Inr st"
  by (cases "filter_by_ticker_first st (Some t)")
     (simp_all add: insert_if_absent_def filter_by_ticker_first_None)

lemma insert_if_absent_new:
  "t \<notin> set (tickers st) \<Longrightarrow>
   insert_if_absent st t =
     Inr \<lparr>search_records = search_records st @ [\<lparr>record_id = next_id st, ticker = t\<rparr>],
          next_id = next_id st + 1\<rparr>"
  using filter_by_ticker_first_None [of st t]
  by (simp add: insert_if_absent_def add_commit_def)

lemma insert_if_absent_returns: "\<exists>st'. insert_if_absent st t = Inr st'"
  by (cases "t \<in> set (tickers st)") (simp_all add: insert_if_absent_present insert_if_absent_new)

lemma insert_if_absent_has:
  "insert_if_absent st t = Inr st' \<Longrightarrow> t \<in> set (tickers st')"
  by (cases "t \<in> set (tickers st)")
     (auto simp: insert_if_absent_present insert_if_absent_new tickers_def)

lemma store_ok_insert:
  assumes "store_ok st" "insert_if_absent st t = Inr st'"
  shows "store_ok st'"
proof (cases "t \<in> set (tickers st)")
  case True
  with assms show ?thesis by (simp add: insert_if_absent_present)
next
  case False
  have "\<forall>r \<in> set (search_records st). record_id r < next_id st"
    using assms(1) by (simp add: store_ok_def list_all_iff)
  then have "next_id st \<notin> record_id ` set (search_records st)" by auto
  with False assms show ?thesis
    by (fastforce simp: insert_if_absent_new store_ok_def tickers_def list_all_iff)
qed

lemma store_ok_delete: "store_ok st \<Longrightarrow> store_ok (delete_commit st r)"
  by (auto simp: store_ok_def delete_commit_def tickers_def list_all_iff distinct_map_filter)

lemma store_ok_empty: "store_ok empty_store"
  by (simp add: store_ok_def empty_store_def tickers_def)

lemma search_price_store:
  "snd (search_price yf n1 n2 st t bd ed) = st \<or>
   insert_if_absent st t = Inr (snd (search_price yf n1 n2 st t bd ed))"
  by (auto simp: search_price_def split: sum.splits prod.splits)

lemma store_ok_search_price:
  "store_ok st \<Longrightarrow> store_ok (snd (search_price yf n1 n2 st t bd ed))"
  using search_price_store [of yf n1 n2 st t bd ed] store_ok_insert by metis

lemma store_ok_delete_record: "store_ok st \<Longrightarrow> store_ok (snd (delete_record st arg))"
  by (auto simp: delete_record_def store_ok_delete split: option.splits)

lemma reachable_store_ok: "reachable st \<Longrightarrow> store_ok st"
  by (induction rule: reachable.induct)
     (simp_all add: store_ok_empty store_ok_search_price store_ok_delete_record)

lemma search_price_found:
  assumes "date_range n1 n2 bd ed = Inr (b, e)" "yf t b e = Inr stock_price" "stock_price \<noteq> []"
    "insert_if_absent st t = Inr st'"
  shows "search_price yf n1 n2 st t bd ed = (Inr ([], Render_price (build_chart t stock_price)), st')"
  using assms by (simp add: search_price_def)

lemma distinct_count_one:
  "distinct (map f xs) \<Longrightarrow> v \<in> set (map f xs) \<Longrightarrow> length (filter (\<lambda>x. f x = v) xs) = 1"
proof (induction xs)
  case Nil
  then show ?case by simp
next
  case (Cons x xs)
  show ?case
  proof (cases "f x = v")
    case True
    with Cons.prems have "v \<notin> f ` set xs" by auto
    then have "filter (\<lambda>x. f x = v) xs = []" by (auto simp: filter_empty_conv)
    with True show ?thesis by simp
  next
    case False
    with Cons show ?thesis by auto
  qed
qed

lemma filter_key_eq:
  assumes "distinct (map f xs)" "r \<in> set xs"
  shows "filter (\<lambda>x. f x \<noteq> f r) xs = filter (\<lambda>x. x \<noteq> r) xs"
proof (rule filter_cong [OF refl])
  fix x assume "x \<in> set xs"
  with assms have "f x = f r \<longleftrightarrow> x = r"
    by (meson distinct_map inj_on_eq_iff)
  then show "(f x \<noteq> f r) = (x \<noteq> r)" by simp
qed

lemma delete_record_reply: "fst (delete_record st arg) = ([], Redirect Home_url)"
  by (simp add: delete_record_def split: option.splits)

lemma delete_record_absent:
  "t \<notin> set (tickers st) \<Longrightarrow> delete_record st (Some t) = (([], Redirect Home_url), st)"
  using filter_by_ticker_first_None [of st t] by (simp add: delete_record_def)

lemma delete_record_present:
  assumes "store_ok st"
  shows "snd (delete_record st (Some t)) =
         st\<lparr>search_records := filter (\<lambda>r. ticker r \<noteq> t) (search_records st)\<rparr>"
proof (cases "filter_by_ticker_first st (Some t)")
  case None
  then have "t \<notin> set (tickers st)" by (simp add: filter_by_ticker_first_None)
  then have "filter (\<lambda>r. ticker r \<noteq> t) (search_records st) = search_records st"
    by (auto simp: tickers_def filter_id_conv)
  with None show ?thesis by (simp add: delete_record_def)
next
  case (Some r)
  then have r: "r \<in> set (search_records st)" "ticker r = t"
    using filter_by_ticker_first_Some by auto
  from assms have d: "distinct (map record_id (search_records st))"
    "distinct (map ticker (search_records st))"
    by (simp_all add: store_ok_def tickers_def)
  have "filter (\<lambda>x. record_id x \<noteq> record_id r) (search_records st)
        = filter (\<lambda>x. x \<noteq> r) (search_records st)"
    using filter_key_eq [OF d(1) r(1)] .
  also have "\<dots> = filter (\<lambda>x. ticker x \<noteq> ticker r) (search_records st)"
    using filter_key_eq [OF d(2) r(1)] by simp
  finally show ?thesis using Some r by (simp add: delete_record_def delete_commit_def)
qed

section \<open>Facts about the webhook\<close>

lemma handler_handle_invalid:
  "\<not> signature_valid sdk body signature \<Longrightarrow>
   handler_handle sdk body signature st = (Inl InvalidSignatureError, st)"
  by (simp add: handler_handle_def)

lemma handle_message_sent:
  "handle_message sdk tok txt st = (r, st') \<Longrightarrow> app_log st' = app_log st"
  by (auto simp: handle_message_def split: option.splits)

lemma callback_no_header: "callback sdk None body st = (Inl KeyError, st)"
  by (simp add: callback_def)

lemma callback_invalid:
  assumes "\<not> signature_valid sdk body signature"
  shows "callback sdk (Some signature) body st =
     (Inr (Abort 400), st\<lparr>app_log := app_log st @ [Log_request_body body, Log_invalid_signature]\<rparr>)"
  using assms by (simp add: callback_def handler_handle_def)

lemma callback_replies_need_valid:
  assumes "sent_replies (snd (callback sdk hdr body st)) \<noteq> sent_replies st"
  shows "\<exists>signature. hdr = Some signature \<and> signature_valid sdk body signature"
proof (cases hdr)
  case None
  with assms show ?thesis by (simp add: callback_def)
next
  case (Some signature)
  show ?thesis
  proof (cases "signature_valid sdk body signature")
    case True
    with Some show ?thesis by simp
  next
    case False
    from callback_invalid [OF False] Some assms show ?thesis by simp
  qed
qed

lemma callback_400_needs_header:
  "fst (callback sdk hdr body st) = Inr (Abort 400) \<Longrightarrow> hdr \<noteq> None"
  by (auto simp: callback_def split: option.splits)

lemma date_range_one_missing:
  "date_range n1 n2 (Some b) None = default_window n1 n2"
  "date_range n1 n2 None (Some e) = default_window n1 n2"
  "date_range n1 n2 None None = default_window n1 n2"
  by (simp_all add: date_range_def)

lemma search_price_one_missing:
  "search_price yf n1 n2 st t (Some b) None = search_price yf n1 n2 st t None None"
  "search_price yf n1 n2 st t None (Some e) = search_price yf n1 n2 st t None None"
  by (simp_all add: search_price_def date_range_one_missing)

lemma search_price_empty:
  assumes "date_range n1 n2 bd ed = Inr (b, e)" "yf t b e = Inr []"
  shows "search_price yf n1 n2 st t bd ed = (Inr ([Flash_ticker_not_found], Redirect Home_url), st)"
  using assms by (simp add: search_price_def)

section \<open>The claims about the store, the price route and the webhook\<close>

text \<open>
  C2. When the provider returns an empty series for the dates of the request, the
  price route flashes the message of line 108 and redirects to the home route, and
  the store is the one the request found: the ticker is not inserted.
\<close>

theorem search_price_empty_series:
  assumes "date_range today_102 today_103 begin_date end_date = Inr (b, e)"
    and "yf t b e = Inr []"
  shows "search_price yf today_102 today_103 st t begin_date end_date =
           (Inr ([Flash_ticker_not_found], Redirect Home_url), st) \<and>
         http_status (map_sum id snd (fst (search_price yf today_102 today_103 st t begin_date end_date))) = 302 \<and>
         tickers (snd (search_price yf today_102 today_103 st t begin_date end_date)) = tickers st"
  using assms by (simp add: search_price_def)

theorem search_price_empty_series_witness:
  "date_range \<lparr>year = 2023, month = 3, day = 1\<rparr> \<lparr>year = 2023, month = 3, day = 1\<rparr> None None
     = Inr (''2022-12-01'', ''2023-03-01'') \<and>
   (\<lambda>t b e. Inr []) ''9999.TW'' ''2022-12-01'' ''2023-03-01'' = (Inr [] :: py_error + price_row list) \<and>
   search_price (\<lambda>t b e. Inr []) \<lparr>year = 2023, month = 3, day = 1\<rparr> \<lparr>year = 2023, month = 3, day = 1\<rparr>
       empty_store ''9999.TW'' None None
     = (Inr ([Flash_ticker_not_found], Redirect Home_url), empty_store)"
proof -
  have r: "date_range \<lparr>year = 2023, month = 3, day = 1\<rparr> \<lparr>year = 2023, month = 3, day = 1\<rparr> None None
     = Inr (''2022-12-01'', ''2023-03-01'')"
    by code_simp
  have p: "(\<lambda>t b e. Inr []) ''9999.TW'' ''2022-12-01'' ''2023-03-01'' = (Inr [] :: py_error + price_row list)"
    by simp
  from search_price_empty_series [where yf = "\<lambda>t b e. Inr []" and st = empty_store, OF r p] r show ?thesis
    by simp
qed

text \<open>
  C3. In every state of the store that the routes can reach from the empty table, no
  two rows have the same ticker. From such a state the step of lines 111-115 returns
  without an error, leaves exactly one row for its ticker, and does nothing when it
  runs again; the same holds of two requests of the price route for one ticker whose
  series are not empty.
\<close>

theorem tickers_unique_and_insert_idempotent:
  assumes "reachable st"
  shows "distinct (tickers st) \<and>
    (\<exists>st1. insert_if_absent st t = Inr st1 \<and> insert_if_absent st1 t = Inr st1 \<and>
            length (filter (\<lambda>r. ticker r = t) (search_records st1)) = 1) \<and>
    (\<forall>yf n1 n2 bd ed b e rows1 yf' n1' n2' bd' ed' b' e' rows2.
       date_range n1 n2 bd ed = Inr (b, e) \<and> yf t b e = Inr rows1 \<and> rows1 \<noteq> [] \<and>
       date_range n1' n2' bd' ed' = Inr (b', e') \<and> yf' t b' e' = Inr rows2 \<and> rows2 \<noteq> []
       \<longrightarrow>
       (let st1 = snd (search_price yf n1 n2 st t bd ed);
            st2 = snd (search_price yf' n1' n2' st1 t bd' ed')
        in length (filter (\<lambda>r. ticker r = t) (search_records st1)) = 1 \<and> st2 = st1 \<and>
           distinct (tickers st1)))"
proof -
  from assms have ok: "store_ok st" by (rule reachable_store_ok)
  then have d: "distinct (tickers st)" by (simp add: store_ok_def)
  obtain st1 where i1: "insert_if_absent st t = Inr st1"
    using insert_if_absent_returns by blast
  have ok1: "store_ok st1" using ok i1 by (rule store_ok_insert)
  have has: "t \<in> set (tickers st1)" using i1 by (rule insert_if_absent_has)
  then have i2: "insert_if_absent st1 t = Inr st1" by (rule insert_if_absent_present)
  have one: "length (filter (\<lambda>r. ticker r = t) (search_records st1)) = 1"
    using ok1 has by (simp add: store_ok_def tickers_def distinct_count_one)
  have d1: "distinct (tickers st1)" using ok1 by (simp add: store_ok_def)
  have "let s1 = snd (search_price yf n1 n2 st t bd ed);
            s2 = snd (search_price yf' n1' n2' s1 t bd' ed')
        in length (filter (\<lambda>r. ticker r = t) (search_records s1)) = 1 \<and> s2 = s1 \<and>
           distinct (tickers s1)"
    if h: "date_range n1 n2 bd ed = Inr (b, e)" "yf t b e = Inr rows1" "rows1 \<noteq> []"
      "date_range n1' n2' bd' ed' = Inr (b', e')" "yf' t b' e' = Inr rows2" "rows2 \<noteq> []"
    for yf n1 n2 bd ed b e rows1 yf' n1' n2' bd' ed' b' e' rows2
  proof -
    have "snd (search_price yf n1 n2 st t bd ed) = st1"
      using search_price_found [where yf = yf and t = t, OF h(1,2,3) i1] by simp
    moreover have "snd (search_price yf' n1' n2' st1 t bd' ed') = st1"
      using search_price_found [where yf = yf' and t = t, OF h(4,5,6) i2] by simp
    ultimately show ?thesis using one d1 by simp
  qed
  with d i1 i2 one show ?thesis by blast
qed

theorem tickers_unique_and_insert_idempotent_witness:
  "reachable empty_store \<and>
   insert_if_absent empty_store ''2330.TW''
     = Inr \<lparr>search_records = [\<lparr>record_id = 1, ticker = ''2330.TW''\<rparr>], next_id = 2\<rparr> \<and>
   insert_if_absent \<lparr>search_records = [\<lparr>record_id = 1, ticker = ''2330.TW''\<rparr>], next_id = 2\<rparr> ''2330.TW''
     = Inr \<lparr>search_records = [\<lparr>record_id = 1, ticker = ''2330.TW''\<rparr>], next_id = 2\<rparr> \<and>
   distinct (tickers empty_store) \<and>
   (\<exists>st1. insert_if_absent empty_store ''2330.TW'' = Inr st1 \<and>
           insert_if_absent st1 ''2330.TW'' = Inr st1 \<and>
           length (filter (\<lambda>r. ticker r = ''2330.TW'') (search_records st1)) = 1)"
proof -
  have r: "reachable empty_store" by (rule reachable.created)
  have a: "insert_if_absent empty_store ''2330.TW''
     = Inr \<lparr>search_records = [\<lparr>record_id = 1, ticker = ''2330.TW''\<rparr>], next_id = 2\<rparr>"
    by (simp add: insert_if_absent_def filter_by_ticker_first_def add_commit_def
        empty_store_def tickers_def)
  have b: "insert_if_absent \<lparr>search_records = [\<lparr>record_id = 1, ticker = ''2330.TW''\<rparr>], next_id = 2\<rparr> ''2330.TW''
     = Inr \<lparr>search_records = [\<lparr>record_id = 1, ticker = ''2330.TW''\<rparr>], next_id = 2\<rparr>"
    by (simp add: insert_if_absent_def filter_by_ticker_first_def)
  from tickers_unique_and_insert_idempotent [OF r, of "''2330.TW''"] r a b show ?thesis
    by blast
qed

text \<open>
  C7. A request of the delete route with a ticker is answered by a redirect to the
  home route, whether or not a row has that ticker. When no row has it the store is
  unchanged; otherwise exactly the rows with that ticker are gone and all other rows
  and the key sequence are as before.
\<close>

theorem delete_record_removes_ticker:
  "fst (delete_record st (Some t)) = ([], Redirect Home_url) \<and>
   (t \<notin> set (tickers st) \<longrightarrow> snd (delete_record st (Some t)) = st) \<and>
   (store_ok st \<longrightarrow>
      snd (delete_record st (Some t))
        = st\<lparr>search_records := filter (\<lambda>r. ticker r \<noteq> t) (search_records st)\<rparr> \<and>
      t \<notin> set (tickers (snd (delete_record st (Some t)))))"
proof -
  have "t \<notin> set (tickers (snd (delete_record st (Some t))))" if "store_ok st"
    using delete_record_present [OF that, of t] by (auto simp: tickers_def)
  then show ?thesis
    using delete_record_reply [of st "Some t"] delete_record_absent [of t st]
      delete_record_present [of st t]
    by simp
qed

theorem delete_record_removes_ticker_witness:
  "store_ok \<lparr>search_records = [\<lparr>record_id = 1, ticker = ''2330.TW''\<rparr>,
                               \<lparr>record_id = 2, ticker = ''2317.TW''\<rparr>], next_id = 3\<rparr> \<and>
   delete_record \<lparr>search_records = [\<lparr>record_id = 1, ticker = ''2330.TW''\<rparr>,
                                    \<lparr>record_id = 2, ticker = ''2317.TW''\<rparr>], next_id = 3\<rparr>
       (Some ''2330.TW'')
     = (([], Redirect Home_url),
        \<lparr>search_records = [\<lparr>record_id = 2, ticker = ''2317.TW''\<rparr>], next_id = 3\<rparr>) \<and>
   ''6488.TWO'' \<notin> set (tickers \<lparr>search_records = [\<lparr>record_id = 1, ticker = ''2330.TW''\<rparr>,
                               \<lparr>record_id = 2, ticker = ''2317.TW''\<rparr>], next_id = 3\<rparr>) \<and>
   snd (delete_record \<lparr>search_records = [\<lparr>record_id = 1, ticker = ''2330.TW''\<rparr>,
                                    \<lparr>record_id = 2, ticker = ''2317.TW''\<rparr>], next_id = 3\<rparr>
       (Some ''6488.TWO''))
     = \<lparr>search_records = [\<lparr>record_id = 1, ticker = ''2330.TW''\<rparr>,
                               \<lparr>record_id = 2, ticker = ''2317.TW''\<rparr>], next_id = 3\<rparr>"
proof -
  let ?st = "\<lparr>search_records = [\<lparr>record_id = 1, ticker = ''2330.TW''\<rparr>,
                               \<lparr>record_id = 2, ticker = ''2317.TW''\<rparr>], next_id = 3\<rparr>"
  have ok: "store_ok ?st" by (simp add: store_ok_def tickers_def)
  have absent: "''6488.TWO'' \<notin> set (tickers ?st)" by (simp add: tickers_def)
  from delete_record_removes_ticker [of ?st "''2330.TW''"] ok
  have "delete_record ?st (Some ''2330.TW'')
     = (([], Redirect Home_url),
        \<lparr>search_records = [\<lparr>record_id = 2, ticker = ''2317.TW''\<rparr>], next_id = 3\<rparr>)"
    by (simp add: prod_eq_iff)
  moreover from delete_record_removes_ticker [of ?st "''6488.TWO''"] absent
  have "snd (delete_record ?st (Some ''6488.TWO'')) = ?st" by blast
  ultimately show ?thesis using ok absent by blast
qed

text \<open>
  C8. When the signature of the header does not verify the body, the webhook answers
  with status 400. The body and the failure are logged and nothing else happens: the
  result does not depend on the parser or on the reply API, and no reply is sent.
  A request that sends a reply has a header whose signature verifies its body.
\<close>

theorem callback_rejects_invalid_signature:
  "(\<not> signature_valid sdk body signature \<longrightarrow>
      callback sdk (Some signature) body st
        = (Inr (Abort 400),
           st\<lparr>app_log := app_log st @ [Log_request_body body, Log_invalid_signature]\<rparr>) \<and>
      http_status (fst (callback sdk (Some signature) body st)) = 400 \<and>
      sent_replies (snd (callback sdk (Some signature) body st)) = sent_replies st) \<and>
   (sent_replies (snd (callback sdk hdr body st)) \<noteq> sent_replies st \<longrightarrow>
      (\<exists>s. hdr = Some s \<and> signature_valid sdk body s))"
  using callback_invalid [of sdk body signature st]
    callback_replies_need_valid [of sdk hdr body st]
  by auto

theorem callback_rejects_invalid_signature_witness:
  "\<not> signature_valid
       \<lparr>signature_valid = (\<lambda>body s. s = ''good''),
        parse_events = (\<lambda>body. Inr [Text_message ''token'' body]),
        reply_api = (\<lambda>token text. None)\<rparr> ''hello'' ''bad'' \<and>
   callback
       \<lparr>signature_valid = (\<lambda>body s. s = ''good''),
        parse_events = (\<lambda>body. Inr [Text_message ''token'' body]),
        reply_api = (\<lambda>token text. None)\<rparr> (Some ''bad'') ''hello''
       \<lparr>app_log = [], sent_replies = []\<rparr>
     = (Inr (Abort 400),
        \<lparr>app_log = [Log_request_body ''hello'', Log_invalid_signature], sent_replies = []\<rparr>) \<and>
   sent_replies (snd (callback
       \<lparr>signature_valid = (\<lambda>body s. s = ''good''),
        parse_events = (\<lambda>body. Inr [Text_message ''token'' body]),
        reply_api = (\<lambda>token text. None)\<rparr> (Some ''good'') ''hello''
       \<lparr>app_log = [], sent_replies = []\<rparr>)) = [(''token'', ''hello'')] \<and>
   signature_valid
       \<lparr>signature_valid = (\<lambda>body s. s = ''good''),
        parse_events = (\<lambda>body. Inr [Text_message ''token'' body]),
        reply_api = (\<lambda>token text. None)\<rparr> ''hello'' ''good''"
proof -
  let ?sdk = "\<lparr>signature_valid = (\<lambda>body s. s = ''good''),
        parse_events = (\<lambda>body. Inr [Text_message ''token'' body]),
        reply_api = (\<lambda>token text. None)\<rparr>"
  let ?st = "\<lparr>app_log = [], sent_replies = []\<rparr>"
  have bad: "\<not> signature_valid ?sdk ''hello'' ''bad''" by simp
  have sent: "sent_replies (snd (callback ?sdk (Some ''good'') ''hello'' ?st))
      = [(''token'', ''hello'')]"
    by (simp add: callback_def handler_handle_def handle_message_def)
  from callback_rejects_invalid_signature [of ?sdk "''hello''" "''bad''" ?st "Some ''good''"]
    bad sent
  show ?thesis by simp
qed

text \<open>
  C9. A request of the webhook without the signature header ends in the KeyError of
  line 164: the client gets a server error, nothing is logged and nothing is sent.
  The answer 400 is given only to a request that carries the header.
\<close>

theorem callback_without_signature_header:
  "callback sdk None body st = (Inl KeyError, st) \<and>
   http_status (fst (callback sdk None body st)) = 500 \<and>
   (fst (callback sdk hdr body st) = Inr (Abort 400) \<longrightarrow> hdr \<noteq> None)"
  using callback_no_header [of sdk body st] callback_400_needs_header [of sdk hdr body st]
  by auto

theorem callback_without_signature_header_witness:
  "fst (callback \<lparr>signature_valid = (\<lambda>body s. False), parse_events = (\<lambda>body. Inr []),
                   reply_api = (\<lambda>token text. None)\<rparr> (Some ''x'') ''{}''
          \<lparr>app_log = [], sent_replies = []\<rparr>) = Inr (Abort 400) \<and>
   Some ''x'' \<noteq> (None :: string option) \<and>
   callback \<lparr>signature_valid = (\<lambda>body s. False), parse_events = (\<lambda>body. Inr []),
              reply_api = (\<lambda>token text. None)\<rparr> None ''{}'' \<lparr>app_log = [], sent_replies = []\<rparr>
     = (Inl KeyError, \<lparr>app_log = [], sent_replies = []\<rparr>)"
proof -
  let ?sdk = "\<lparr>signature_valid = (\<lambda>body s. False), parse_events = (\<lambda>body. Inr []),
              reply_api = (\<lambda>token text. None)\<rparr>"
  let ?st = "\<lparr>app_log = [], sent_replies = []\<rparr>"
  have "fst (callback ?sdk (Some ''x'') ''{}'' ?st) = Inr (Abort 400)"
    by (simp add: callback_def handler_handle_def)
  with callback_without_signature_header [of ?sdk "''{}''" ?st "Some ''x''"]
  show ?thesis by simp
qed

text \<open>
  C10. When exactly one of \<open>begin_date\<close> and \<open>end_date\<close> is in the query, its value is
  not used: the dates are those of the default window, the day 90 days before today
  and today, and the request is answered as the request with neither parameter. On
  2023-03-01 the window is 2022-12-01 to 2023-03-01.
\<close>

theorem search_price_one_date_is_ignored:
  "date_range today_102 today_103 (Some b) None = default_window today_102 today_103 \<and>
   date_range today_102 today_103 None (Some e) = default_window today_102 today_103 \<and>
   date_range today_102 today_103 None None = default_window today_102 today_103 \<and>
   search_price yf today_102 today_103 st t (Some b) None
     = search_price yf today_102 today_103 st t None None \<and>
   search_price yf today_102 today_103 st t None (Some e)
     = search_price yf today_102 today_103 st t None None \<and>
   default_window today_102 today_103
     = (case fromordinal (toordinal today_102 - 90) of
          Inl err \<Rightarrow> Inl err
        | Inr first_day \<Rightarrow> Inr (date_str first_day, date_str today_103)) \<and>
   default_window \<lparr>year = 2023, month = 3, day = 1\<rparr> \<lparr>year = 2023, month = 3, day = 1\<rparr>
     = Inr (''2022-12-01'', ''2023-03-01'')"
proof -
  have "default_window \<lparr>year = 2023, month = 3, day = 1\<rparr> \<lparr>year = 2023, month = 3, day = 1\<rparr>
     = Inr (''2022-12-01'', ''2023-03-01'')"
    by code_simp
  then show ?thesis
    by (simp add: date_range_one_missing search_price_one_missing default_window_def
        date_minus_days_def)
qed

section \<open>The moving averages\<close>

lemma rolling_from_length: "length (rolling_from w win xs) = length xs"
  by (induction xs arbitrary: win) (simp_all add: Let_def)

lemma drop_tail_append:
  "drop (length (drop (length a - w) a @ b) - w) (drop (length a - w) a @ b)
   = drop (length (a @ b) - w) (a @ b)"
proof (cases "length a \<le> w")
  case True
  then show ?thesis by simp
next
  case False
  then have "length (drop (length a - w) a @ b) - w = length b" by simp
  moreover have "length b + (length a - w) = length a + length b - w"
    using False by simp
  ultimately show ?thesis using False by simp
qed

lemma slide_append: "slide w (drop (length a - w) a) x @ b = drop (length (a @ [x]) - w) (a @ [x]) @ b"
  using drop_tail_append [of a w "[x]"] by (simp add: slide_def Let_def)

lemma rolling_from_nth:
  "i < length xs \<Longrightarrow>
   rolling_from w win xs ! i
     = window_mean w (drop (length (win @ take (Suc i) xs) - w) (win @ take (Suc i) xs))"
proof (induction xs arbitrary: win i)
  case Nil
  then show ?case by simp
next
  case (Cons x xs)
  show ?case
  proof (cases i)
    case 0
    then show ?thesis by (simp add: Let_def slide_def)
  next
    case (Suc j)
    with Cons.prems have j: "j < length xs" by simp
    have "rolling_from w win (x # xs) ! i = rolling_from w (slide w win x) xs ! j"
      using Suc by (simp add: Let_def)
    also have "\<dots> = window_mean w
        (drop (length (slide w win x @ take (Suc j) xs) - w) (slide w win x @ take (Suc j) xs))"
      using Cons.IH [OF j] .
    also have "drop (length (slide w win x @ take (Suc j) xs) - w) (slide w win x @ take (Suc j) xs)
        = drop (length ((win @ [x]) @ take (Suc j) xs) - w) ((win @ [x]) @ take (Suc j) xs)"
      using drop_tail_append [of "win @ [x]" w "take (Suc j) xs"]
      by (simp add: slide_def Let_def)
    finally show ?thesis using Suc by simp
  qed
qed

lemma map_filter_length: "length (List.map_filter f xs) \<le> length xs"
  by (simp add: List.map_filter_def)

lemma window_mean_short: "length win < w \<Longrightarrow> window_mean w win = None"
  using map_filter_length [of "\<lambda>v. v" win] by (simp add: window_mean_def Let_def)

lemma map_filter_all_Some:
  "None \<notin> set vs \<Longrightarrow> List.map_filter (\<lambda>v. v) vs = map the vs"
proof (induction vs)
  case Nil
  show ?case by (simp add: List.map_filter_def)
next
  case (Cons v vs)
  then obtain a where "v = Some a" by (cases v) auto
  with Cons show ?case by (simp add: List.map_filter_def)
qed

lemma map_filter_some_None:
  "None \<in> set vs \<Longrightarrow> length (List.map_filter (\<lambda>v. v) vs) < length vs"
proof (induction vs)
  case Nil
  then show ?case by simp
next
  case (Cons v vs)
  show ?case
  proof (cases v)
    case None
    have "length (List.map_filter (\<lambda>v. v) vs) \<le> length vs"
      by (rule map_filter_length)
    with None show ?thesis by (simp add: List.map_filter_def le_imp_less_Suc)
  next
    case (Some a)
    with Cons show ?thesis by (simp add: List.map_filter_def)
  qed
qed

lemma window_mean_full:
  assumes "length win = w" "0 < w"
  shows "window_mean w win = arithmetic_mean win"
proof (cases "None \<in> set win")
  case True
  with assms show ?thesis
    using map_filter_some_None [OF True] by (simp add: window_mean_def arithmetic_mean_def Let_def)
next
  case False
  with assms show ?thesis
    by (auto simp: window_mean_def arithmetic_mean_def Let_def map_filter_all_Some)
qed

lemma take_drop_window:
  assumes "i < length xs" "w \<le> Suc i"
  shows "drop (length (take (Suc i) xs) - w) (take (Suc i) xs) = map (\<lambda>k. xs ! k) [Suc i - w ..< Suc i]"
proof (rule nth_equalityI)
  show "length (drop (length (take (Suc i) xs) - w) (take (Suc i) xs))
      = length (map (\<lambda>k. xs ! k) [Suc i - w ..< Suc i])"
    using assms by (auto simp: min_def)
next
  fix k assume "k < length (drop (length (take (Suc i) xs) - w) (take (Suc i) xs))"
  with assms have k: "k < w" by simp
  from assms have len: "length (take (Suc i) xs) = Suc i" by simp
  have "drop (Suc i - w) (take (Suc i) xs) ! k = xs ! (Suc i - w + k)"
    using assms k by simp
  moreover have "map (\<lambda>k. xs ! k) [Suc i - w ..< Suc i] ! k = xs ! (Suc i - w + k)"
    using assms k by (simp del: upt_Suc)
  ultimately show "drop (length (take (Suc i) xs) - w) (take (Suc i) xs) ! k
      = map (\<lambda>k. xs ! k) [Suc i - w ..< Suc i] ! k"
    using len by simp
qed

lemma rolling_mean_nth:
  assumes "i < length xs" "0 < w"
  shows "rolling_mean w xs ! i
     = (if Suc i < w then None else arithmetic_mean (map (\<lambda>k. xs ! k) [Suc i - w ..< Suc i]))"
proof (cases "Suc i < w")
  case True
  with assms have "length (drop (length (take (Suc i) xs) - w) (take (Suc i) xs)) < w"
    by simp
  then show ?thesis
    using True rolling_from_nth [OF assms(1), of w "[]"]
    by (simp add: rolling_mean_def window_mean_short)
next
  case False
  then have w: "w \<le> Suc i" by simp
  have "rolling_mean w xs ! i = window_mean w (map (\<lambda>k. xs ! k) [Suc i - w ..< Suc i])"
    using rolling_from_nth [OF assms(1), of w "[]"] take_drop_window [OF assms(1) w]
    by (simp add: rolling_mean_def)
  also have "\<dots> = arithmetic_mean (map (\<lambda>k. xs ! k) [Suc i - w ..< Suc i])"
    using w assms(2) by (intro window_mean_full) simp_all
  finally show ?thesis using False by simp
qed

lemma arithmetic_mean_constant:
  assumes "0 < n"
  shows "arithmetic_mean (replicate n (Some c)) = Some c"
proof -
  have "sum_list (map the (replicate n (Some c))) = real n * c"
    by (simp add: sum_list_replicate)
  with assms show ?thesis by (simp add: arithmetic_mean_def)
qed

lemma rolling_mean_constant:
  assumes "0 < w" "w \<le> Suc i" "i < n"
  shows "rolling_mean w (replicate n (Some c)) ! i = Some c"
proof -
  have "map (\<lambda>k. replicate n (Some c) ! k) [Suc i - w ..< Suc i] = replicate w (Some c)"
  proof (rule nth_equalityI)
    show "length (map (\<lambda>k. replicate n (Some c) ! k) [Suc i - w ..< Suc i])
        = length (replicate w (Some c))"
      using assms by (auto simp: min_def)
  next
    fix k assume "k < length (map (\<lambda>k. replicate n (Some c) ! k) [Suc i - w ..< Suc i])"
    with assms have "k < w" by (auto simp del: upt_Suc)
    with assms show "map (\<lambda>k. replicate n (Some c) ! k) [Suc i - w ..< Suc i] ! k
        = replicate w (Some c) ! k"
      by (simp del: upt_Suc)
  qed
  with assms show ?thesis
    using rolling_mean_nth [of i "replicate n (Some c)" w]
    by (simp add: arithmetic_mean_constant)
qed

text \<open>
  C4. The two moving-average columns of the chart have one entry per row of the series.
  The entry of \<open>5-day MA\<close> at row \<open>i\<close> is undefined for \<open>i < 4\<close> and is the arithmetic
  mean of \<open>Close\<close> over the rows \<open>i - 4 .. i\<close> from row 4 on; \<open>20-day MA\<close> is undefined for
  \<open>i < 19\<close> and is the mean over the rows \<open>i - 19 .. i\<close> from row 19 on. The chart is the
  one the price route renders for a series that is not empty. For the closing prices
  10, 20, 30, 40, 50 the 5-day average at row 4 is 30 and the rows before have none; on a
  column of 20 or more equal prices the 20-day average at row 19 is that price.
  Prices are exact reals or NaN here; the rounding of floating-point sums is not modelled.
\<close>

theorem moving_average_columns:
  "length (five_day_ma (build_chart t sp)) = length sp \<and>
   length (twenty_day_ma (build_chart t sp)) = length sp \<and>
   (\<forall>i<length sp. five_day_ma (build_chart t sp) ! i =
      (if i < 4 then None
       else arithmetic_mean (map (\<lambda>k. row_Close (sp ! k)) [i - 4 ..< i + 1]))) \<and>
   (\<forall>i<length sp. twenty_day_ma (build_chart t sp) ! i =
      (if i < 19 then None
       else arithmetic_mean (map (\<lambda>k. row_Close (sp ! k)) [i - 19 ..< i + 1]))) \<and>
   (\<forall>yf n1 n2 st bd ed b e.
      date_range n1 n2 bd ed = Inr (b, e) \<and> yf t b e = Inr sp \<and> sp \<noteq> [] \<longrightarrow>
      fst (search_price yf n1 n2 st t bd ed) = Inr ([], Render_price (build_chart t sp))) \<and>
   rolling_mean 5 [Some 10, Some 20, Some 30, Some 40, Some 50]
     = [None, None, None, None, Some 30] \<and>
   (\<forall>n c. 20 \<le> n \<longrightarrow> rolling_mean 20 (replicate n (Some c)) ! 19 = Some c)"
proof -
  let ?closes = "map row_Close sp"
  have window: "map (\<lambda>k. ?closes ! k) [Suc i - Suc w ..< Suc i]
      = map (\<lambda>k. row_Close (sp ! k)) [i - w ..< i + 1]" if "i < length sp" for i w
  proof -
    have "[Suc i - Suc w ..< Suc i] = [i - w ..< i + 1]"
      by (simp del: upt_Suc)
    moreover have "map (\<lambda>k. ?closes ! k) [i - w ..< i + 1]
        = map (\<lambda>k. row_Close (sp ! k)) [i - w ..< i + 1]"
      by (rule map_cong [OF refl]) (use that in \<open>auto simp del: upt_Suc\<close>)
    ultimately show ?thesis by (simp only:)
  qed
  have ma5: "five_day_ma (build_chart t sp) ! i =
      (if i < 4 then None
       else arithmetic_mean (map (\<lambda>k. row_Close (sp ! k)) [i - 4 ..< i + 1]))"
    if i: "i < length sp" for i
  proof -
    have a: "rolling_mean (Suc 4) ?closes ! i
       = (if Suc i < Suc 4 then None
          else arithmetic_mean (map (\<lambda>k. ?closes ! k) [Suc i - Suc 4 ..< Suc i]))"
      using i by (intro rolling_mean_nth) simp_all
    have b: "five_day_ma (build_chart t sp) = rolling_mean (Suc 4) ?closes"
      by (simp add: build_chart_def)
    have c: "(Suc i < Suc 4) = (i < 4)" by simp
    show ?thesis unfolding b a window [OF i] c ..
  qed
  have ma20: "twenty_day_ma (build_chart t sp) ! i =
      (if i < 19 then None
       else arithmetic_mean (map (\<lambda>k. row_Close (sp ! k)) [i - 19 ..< i + 1]))"
    if i: "i < length sp" for i
  proof -
    have a: "rolling_mean (Suc 19) ?closes ! i
       = (if Suc i < Suc 19 then None
          else arithmetic_mean (map (\<lambda>k. ?closes ! k) [Suc i - Suc 19 ..< Suc i]))"
      using i by (intro rolling_mean_nth) simp_all
    have b: "twenty_day_ma (build_chart t sp) = rolling_mean (Suc 19) ?closes"
      by (simp add: build_chart_def)
    have c: "(Suc i < Suc 19) = (i < 19)" by simp
    show ?thesis unfolding b a window [OF i] c ..
  qed
  have lens: "length (five_day_ma (build_chart t sp)) = length sp"
    "length (twenty_day_ma (build_chart t sp)) = length sp"
    by (simp_all add: build_chart_def rolling_mean_def rolling_from_length)
  have route: "fst (search_price yf n1 n2 st t bd ed) = Inr ([], Render_price (build_chart t sp))"
    if "date_range n1 n2 bd ed = Inr (b, e)" "yf t b e = Inr sp" "sp \<noteq> []"
    for yf n1 n2 st bd ed b e
  proof -
    obtain st' where "insert_if_absent st t = Inr st'"
      using insert_if_absent_returns by blast
    with that show ?thesis by (simp add: search_price_def)
  qed
  have ex: "rolling_mean 5 [Some 10, Some 20, Some 30, Some 40, Some 50]
     = [None, None, None, None, Some 30]"
    by (simp add: rolling_mean_def slide_def window_mean_def List.map_filter_def Let_def)
  have const: "rolling_mean 20 (replicate n (Some c)) ! 19 = Some c" if "20 \<le> n" for n c
    using that by (intro rolling_mean_constant) simp_all
  from lens ma5 ma20 route ex const show ?thesis by blast
qed

theorem moving_average_columns_witness:
  "(4::nat) < length
      [\<lparr>row_date = \<lparr>year = 2023, month = 1, day = 2\<rparr>, row_Open = Some 9, row_High = Some 11,
        row_Low = Some 8, row_Close = Some 10\<rparr>,
       \<lparr>row_date = \<lparr>year = 2023, month = 1, day = 3\<rparr>, row_Open = Some 10, row_High = Some 21,
        row_Low = Some 10, row_Close = Some 20\<rparr>,
       \<lparr>row_date = \<lparr>year = 2023, month = 1, day = 4\<rparr>, row_Open = Some 20, row_High = Some 31,
        row_Low = Some 19, row_Close = Some 30\<rparr>,
       \<lparr>row_date = \<lparr>year = 2023, month = 1, day = 5\<rparr>, row_Open = Some 30, row_High = Some 41,
        row_Low = Some 29, row_Close = Some 40\<rparr>,
       \<lparr>row_date = \<lparr>year = 2023, month = 1, day = 6\<rparr>, row_Open = Some 40, row_High = Some 51,
        row_Low = Some 39, row_Close = Some 50\<rparr>] \<and>
   five_day_ma (build_chart ''2330.TW''
      [\<lparr>row_date = \<lparr>year = 2023, month = 1, day = 2\<rparr>, row_Open = Some 9, row_High = Some 11,
        row_Low = Some 8, row_Close = Some 10\<rparr>,
       \<lparr>row_date = \<lparr>year = 2023, month = 1, day = 3\<rparr>, row_Open = Some 10, row_High = Some 21,
        row_Low = Some 10, row_Close = Some 20\<rparr>,
       \<lparr>row_date = \<lparr>year = 2023, month = 1, day = 4\<rparr>, row_Open = Some 20, row_High = Some 31,
        row_Low = Some 19, row_Close = Some 30\<rparr>,
       \<lparr>row_date = \<lparr>year = 2023, month = 1, day = 5\<rparr>, row_Open = Some 30, row_High = Some 41,
        row_Low = Some 29, row_Close = Some 40\<rparr>,
       \<lparr>row_date = \<lparr>year = 2023, month = 1, day = 6\<rparr>, row_Open = Some 40, row_High = Some 51,
        row_Low = Some 39, row_Close = Some 50\<rparr>]) ! 4 = Some 30 \<and>
   five_day_ma (build_chart ''2330.TW''
      [\<lparr>row_date = \<lparr>year = 2023, month = 1, day = 2\<rparr>, row_Open = Some 9, row_High = Some 11,
        row_Low = Some 8, row_Close = Some 10\<rparr>,
       \<lparr>row_date = \<lparr>year = 2023, month = 1, day = 3\<rparr>, row_Open = Some 10, row_High = Some 21,
        row_Low = Some 10, row_Close = Some 20\<rparr>,
       \<lparr>row_date = \<lparr>year = 2023, month = 1, day = 4\<rparr>, row_Open = Some 20, row_High = Some 31,
        row_Low = Some 19, row_Close = Some 30\<rparr>,
       \<lparr>row_date = \<lparr>year = 2023, month = 1, day = 5\<rparr>, row_Open = Some 30, row_High = Some 41,
        row_Low = Some 29, row_Close = Some 40\<rparr>,
       \<lparr>row_date = \<lparr>year = 2023, month = 1, day = 6\<rparr>, row_Open = Some 40, row_High = Some 51,
        row_Low = Some 39, row_Close = Some 50\<rparr>]) ! 3 = None"
proof -
  let ?sp = "[\<lparr>row_date = \<lparr>year = 2023, month = 1, day = 2\<rparr>, row_Open = Some 9, row_High = Some 11,
        row_Low = Some 8, row_Close = Some 10\<rparr>,
       \<lparr>row_date = \<lparr>year = 2023, month = 1, day = 3\<rparr>, row_Open = Some 10, row_High = Some 21,
        row_Low = Some 10, row_Close = Some 20\<rparr>,
       \<lparr>row_date = \<lparr>year = 2023, month = 1, day = 4\<rparr>, row_Open = Some 20, row_High = Some 31,
        row_Low = Some 19, row_Close = Some 30\<rparr>,
       \<lparr>row_date = \<lparr>year = 2023, month = 1, day = 5\<rparr>, row_Open = Some 30, row_High = Some 41,
        row_Low = Some 29, row_Close = Some 40\<rparr>,
       \<lparr>row_date = \<lparr>year = 2023, month = 1, day = 6\<rparr>, row_Open = Some 40, row_High = Some 51,
        row_Low = Some 39, row_Close = Some 50\<rparr>]"
  have len: "length ?sp = 5" by simp
  have all: "\<forall>i<length ?sp. five_day_ma (build_chart ''2330.TW'' ?sp) ! i =
      (if i < 4 then None
       else arithmetic_mean (map (\<lambda>k. row_Close (?sp ! k)) [i - 4 ..< i + 1]))"
    using moving_average_columns [of "''2330.TW''" ?sp] by blast
  have four: "five_day_ma (build_chart ''2330.TW'' ?sp) ! 4 = Some 30"
    using all [rule_format, of 4] by (simp add: arithmetic_mean_def upt_rec)
  have three: "five_day_ma (build_chart ''2330.TW'' ?sp) ! 3 = None"
    using all [rule_format, of 3] by simp
  with four three len show ?thesis by simp
qed

section \<open>The dates of the form\<close>

lemma div_step:
  fixes y k :: int
  assumes "0 < k"
  shows "y div k = (y - 1) div k + (if y mod k = 0 then 1 else 0)"
proof -
  define q where "q = (y - 1) div k"
  define r where "r = (y - 1) mod k"
  have r: "0 \<le> r" "r < k" using assms by (simp_all add: r_def)
  have y: "y = (r + 1) + q * k"
    using div_mult_mod_eq [of "y - 1" k] by (simp add: q_def r_def)
  show ?thesis
  proof (cases "r + 1 = k")
    case True
    with y have "y = 0 + (q + 1) * k" by (simp add: algebra_simps)
    then have "y div k = q + 1" "y mod k = 0"
      using assms by simp_all
    then show ?thesis by (simp add: q_def)
  next
    case False
    with r have small: "0 \<le> r + 1" "r + 1 < k" by simp_all
    have "y div k = q + (r + 1) div k"
      using assms by (subst y) simp
    moreover have "y mod k = (r + 1) mod k"
      by (subst y) simp
    ultimately have "y div k = q" "y mod k = r + 1"
      using small by simp_all
    with r show ?thesis by (simp add: q_def)
  qed
qed

lemma leap_divisors:
  fixes y :: int
  shows "y mod 400 = 0 \<Longrightarrow> y mod 100 = 0" and "y mod 100 = 0 \<Longrightarrow> y mod 4 = 0"
proof -
  assume "y mod 400 = 0"
  then have "400 dvd y" by (simp add: dvd_eq_mod_eq_0)
  moreover have "(100::int) dvd 400" by simp
  ultimately have "100 dvd y" by (rule dvd_trans [rotated])
  then show "y mod 100 = 0" by (simp add: dvd_eq_mod_eq_0)
next
  assume "y mod 100 = 0"
  then have "100 dvd y" by (simp add: dvd_eq_mod_eq_0)
  moreover have "(4::int) dvd 100" by simp
  ultimately have "4 dvd y" by (rule dvd_trans [rotated])
  then show "y mod 4 = 0" by (simp add: dvd_eq_mod_eq_0)
qed

lemma days_before_year_next:
  "days_before_year (y + 1) = days_before_year y + (if is_leap y then 366 else 365)"
proof -
  define a4 a100 a400 where "a4 = (y - 1) div 4" "a100 = (y - 1) div 100" "a400 = (y - 1) div 400"
  define b4 b100 b400 where "b4 = y div 4" "b100 = y div 100" "b400 = y div 400"
  have l: "days_before_year (y + 1) = y * 365 + b4 - b100 + b400"
    by (simp add: days_before_year_def b4_b100_b400_def)
  have r: "days_before_year y = (y - 1) * 365 + a4 - a100 + a400"
    by (simp add: days_before_year_def Let_def a4_a100_a400_def)
  have s4: "b4 = a4 + (if y mod 4 = 0 then 1 else 0)"
    unfolding a4_a100_a400_def b4_b100_b400_def by (rule div_step) simp
  have s100: "b100 = a100 + (if y mod 100 = 0 then 1 else 0)"
    unfolding a4_a100_a400_def b4_b100_b400_def by (rule div_step) simp
  have s400: "b400 = a400 + (if y mod 400 = 0 then 1 else 0)"
    unfolding a4_a100_a400_def b4_b100_b400_def by (rule div_step) simp
  show ?thesis
  proof (cases "y mod 4 = 0")
    case False
    then have n100: "y mod 100 \<noteq> 0" using leap_divisors(2) [of y] by auto
    then have n400: "y mod 400 \<noteq> 0" using leap_divisors(1) [of y] by auto
    note n = n100 n400
    from False n have "b4 = a4" "b100 = a100" "b400 = a400"
      using s4 s100 s400 by simp_all
    moreover from False have "\<not> is_leap y" by (simp add: is_leap_def)
    ultimately show ?thesis unfolding l r by simp
  next
    case c4: True
    show ?thesis
    proof (cases "y mod 100 = 0")
      case False
      then have n: "y mod 400 \<noteq> 0" using leap_divisors(1) [of y] by auto
      from c4 False n have "b4 = a4 + 1" "b100 = a100" "b400 = a400"
        using s4 s100 s400 by simp_all
      moreover from c4 False have "is_leap y" by (simp add: is_leap_def)
      ultimately show ?thesis unfolding l r by simp
    next
      case c100: True
      show ?thesis
      proof (cases "y mod 400 = 0")
        case False
        from c4 c100 False have "b4 = a4 + 1" "b100 = a100 + 1" "b400 = a400"
          using s4 s100 s400 by simp_all
        moreover from c100 False have "\<not> is_leap y" by (simp add: is_leap_def)
        ultimately show ?thesis unfolding l r by simp
      next
        case True
        from c4 c100 True have "b4 = a4 + 1" "b100 = a100 + 1" "b400 = a400 + 1"
          using s4 s100 s400 by simp_all
        moreover from c4 True have "is_leap y" by (simp add: is_leap_def)
        ultimately show ?thesis unfolding l r by simp
      qed
    qed
  qed
qed

lemma days_before_year_mono:
  assumes "y \<le> z"
  shows "days_before_year y \<le> days_before_year z"
proof -
  have "days_before_year y \<le> days_before_year (y + int k)" for k
  proof (induction k)
    case 0
    show ?case by simp
  next
    case (Suc k)
    have "y + int (Suc k) = (y + int k) + 1" by simp
    then have "days_before_year (y + int (Suc k)) = days_before_year ((y + int k) + 1)"
      by (simp only:)
    also have "\<dots> \<ge> days_before_year (y + int k)"
      unfolding days_before_year_next by simp
    finally show ?case using Suc by simp
  qed
  from this [of "nat (z - y)"] assms show ?thesis by simp
qed

lemma month_cases:
  assumes "1 \<le> m" "m \<le> 12"
  shows "m = 1 \<or> m = 2 \<or> m = 3 \<or> m = 4 \<or> m = 5 \<or> m = 6 \<or> m = 7 \<or> m = 8 \<or> m = 9 \<or>
         m = 10 \<or> m = 11 \<or> m = (12::int)"
  using assms by arith

lemma days_before_month_next:
  assumes "1 \<le> m" "m \<le> 11"
  shows "days_before_month y (m + 1) = days_before_month y m + days_in_month y m"
proof -
  from assms have "m = 1 \<or> m = 2 \<or> m = 3 \<or> m = 4 \<or> m = 5 \<or> m = 6 \<or> m = 7 \<or> m = 8 \<or>
      m = 9 \<or> m = 10 \<or> m = (11::int)" by arith
  then show ?thesis
    by (elim disjE)
       (simp_all add: days_before_month_def days_in_month_def DAYS_BEFORE_MONTH_def
          DAYS_IN_MONTH_def)
qed

lemma days_in_month_pos:
  assumes "1 \<le> m" "m \<le> 12"
  shows "28 \<le> days_in_month y m"
  using month_cases [OF assms]
  by (elim disjE) (simp_all add: days_in_month_def DAYS_IN_MONTH_def)

lemma days_before_month_mono:
  assumes "1 \<le> m" "m \<le> n" "n \<le> 12"
  shows "days_before_month y m \<le> days_before_month y n"
proof -
  have "m + int k \<le> 12 \<Longrightarrow> days_before_month y m \<le> days_before_month y (m + int k)" for k
  proof (induction k)
    case 0
    show ?case by simp
  next
    case (Suc k)
    then have le: "days_before_month y m \<le> days_before_month y (m + int k)" by simp
    have "m + int (Suc k) = (m + int k) + 1" by simp
    then have "days_before_month y (m + int (Suc k)) = days_before_month y ((m + int k) + 1)"
      by (simp only:)
    also have "\<dots> = days_before_month y (m + int k) + days_in_month y (m + int k)"
      using Suc.prems assms(1) by (intro days_before_month_next) simp_all
    finally show ?case
      using le days_in_month_pos [of "m + int k" y] Suc.prems assms(1) by simp
  qed
  from this [of "nat (n - m)"] assms show ?thesis by simp
qed

lemma days_before_month_last:
  "days_before_month y 12 + days_in_month y 12 = (if is_leap y then 366 else 365)"
  by (simp add: days_before_month_def days_in_month_def DAYS_BEFORE_MONTH_def DAYS_IN_MONTH_def)

lemma days_before_month_first: "days_before_month y 1 = 0"
  by (simp add: days_before_month_def DAYS_BEFORE_MONTH_def)

lemma month_end_le_next:
  assumes "1 \<le> m" "m < n" "n \<le> 12"
  shows "days_before_month y m + days_in_month y m \<le> days_before_month y n"
proof -
  have "days_before_month y m + days_in_month y m = days_before_month y (m + 1)"
    using assms by (intro days_before_month_next [symmetric]) simp_all
  also have "\<dots> \<le> days_before_month y n"
    using assms by (intro days_before_month_mono) simp_all
  finally show ?thesis .
qed

lemma toordinal_in_year:
  assumes "valid_date d"
  shows "days_before_year (year d) < toordinal d"
    and "toordinal d \<le> days_before_year (year d + 1)"
proof -
  from assms have m: "1 \<le> month d" "month d \<le> 12"
    and dd: "1 \<le> day d" "day d \<le> days_in_month (year d) (month d)"
    by (simp_all add: valid_date_def)
  have "0 \<le> days_before_month (year d) (month d)"
    using days_before_month_mono [of 1 "month d" "year d"] m
    by (simp add: days_before_month_first)
  with dd show "days_before_year (year d) < toordinal d"
    by (simp add: toordinal_def)
  have "days_before_month (year d) (month d) + days_in_month (year d) (month d)
        \<le> days_before_month (year d) 12 + days_in_month (year d) 12"
  proof (cases "month d = 12")
    case True
    then show ?thesis by simp
  next
    case False
    with m have "month d < 12" by simp
    from month_end_le_next [OF m(1) this, of "year d"]
    show ?thesis using days_in_month_pos [of 12 "year d"] by simp
  qed
  with dd show "toordinal d \<le> days_before_year (year d + 1)"
    by (simp add: toordinal_def days_before_year_next days_before_month_last)
qed

lemma datetime_lt_toordinal:
  assumes "valid_date a" "valid_date b" "datetime_lt a b"
  shows "toordinal a < toordinal b"
proof -
  from assms(1) have ma: "1 \<le> month a" "month a \<le> 12"
    and da: "1 \<le> day a" "day a \<le> days_in_month (year a) (month a)"
    by (simp_all add: valid_date_def)
  from assms(2) have mb: "1 \<le> month b" "month b \<le> 12"
    and db: "1 \<le> day b" by (simp_all add: valid_date_def)
  from assms(3) consider "year a < year b"
    | "year a = year b" "month a < month b"
    | "year a = year b" "month a = month b" "day a < day b"
    by (auto simp: datetime_lt_def)
  then show ?thesis
  proof cases
    case 1
    have "toordinal a \<le> days_before_year (year a + 1)"
      using assms(1) by (rule toordinal_in_year)
    also have "\<dots> \<le> days_before_year (year b)"
      using 1 by (intro days_before_year_mono) simp
    also have "\<dots> < toordinal b"
      using assms(2) by (rule toordinal_in_year)
    finally show ?thesis .
  next
    case 2
    from month_end_le_next [OF ma(1) 2(2) mb(2), of "year a"] da db 2(1)
    show ?thesis by (simp add: toordinal_def)
  next
    case 3
    then show ?thesis by (simp add: toordinal_def)
  qed
qed

lemma datetime_trichotomy:
  "datetime_lt a b \<or> datetime_lt b a \<or> (year a = year b \<and> month a = month b \<and> day a = day b)"
  unfolding datetime_lt_def by auto

lemma datetime_lt_iff_toordinal:
  assumes "valid_date a" "valid_date b"
  shows "datetime_lt a b \<longleftrightarrow> toordinal a < toordinal b"
proof
  assume "datetime_lt a b"
  with assms show "toordinal a < toordinal b" by (rule datetime_lt_toordinal)
next
  assume lt: "toordinal a < toordinal b"
  show "datetime_lt a b"
  proof (rule ccontr)
    assume n: "\<not> datetime_lt a b"
    with datetime_trichotomy [of a b]
    have "datetime_lt b a \<or> (year a = year b \<and> month a = month b \<and> day a = day b)"
      by blast
    then show False
    proof
      assume "datetime_lt b a"
      from datetime_lt_toordinal [OF assms(2) assms(1) this] lt show False by simp
    next
      assume "year a = year b \<and> month a = month b \<and> day a = day b"
      then have "toordinal a = toordinal b" by (simp add: toordinal_def)
      with lt show False by simp
    qed
  qed
qed

lemma strptime_valid: "strptime s = Inr d \<Longrightarrow> valid_date d"
  by (auto simp: strptime_def date_new_def Let_def split: list.splits prod.splits if_splits)

lemma strptime_raises_ValueError: "strptime s = Inl err \<Longrightarrow> err = ValueError"
  by (auto simp: strptime_def date_new_def Let_def split: list.splits prod.splits if_splits)

lemma is_valid_date_format_iff:
  "is_valid_date_format s \<longleftrightarrow> (\<exists>d. strptime s = Inr d \<and> valid_date d)"
  using strptime_valid [of s]
  by (cases "strptime s") (auto simp: is_valid_date_format_def)

lemma home_dates:
  assumes "validate_on_submit req = Some (t, b, e)" "ticker_format_ok t"
    "strptime b = Inr db" "strptime e = Inr de"
  shows "home st req =
     Inr (if datetime_lt db de then ([], Redirect (Search_price_url t b e))
          else ([Flash_date_range], Redirect Home_url))"
  using assms
  by (simp add: home_def is_valid_date_format_def begin_not_before_end_def datetime_ge_def)

text \<open>
  C6. For two strings that pass the date-format check, in a submitted form whose ticker
  passes its check, the home route redirects to the price route exactly when the begin
  date is an earlier day than the end date; when it is the same day or a later one the
  route flashes the message of line 82 and redirects to itself. The comparison of line
  81 agrees with the order of the days' ordinals.
\<close>

theorem home_date_range_check:
  assumes "validate_on_submit req = Some (t, b, e)" and "ticker_format_ok t"
    and "is_valid_date_format b" and "is_valid_date_format e"
  shows "\<exists>db de. strptime b = Inr db \<and> strptime e = Inr de \<and> valid_date db \<and> valid_date de \<and>
     (datetime_lt db de \<longleftrightarrow> toordinal db < toordinal de) \<and>
     (home st req = Inr ([], Redirect (Search_price_url t b e)) \<longleftrightarrow> toordinal db < toordinal de) \<and>
     (home st req = Inr ([Flash_date_range], Redirect Home_url) \<longleftrightarrow> toordinal de \<le> toordinal db)"
proof -
  from assms(3) obtain db where db: "strptime b = Inr db" "valid_date db"
    by (auto simp: is_valid_date_format_iff)
  from assms(4) obtain de where de: "strptime e = Inr de" "valid_date de"
    by (auto simp: is_valid_date_format_iff)
  have ord: "datetime_lt db de \<longleftrightarrow> toordinal db < toordinal de"
    using db(2) de(2) by (rule datetime_lt_iff_toordinal)
  have h: "home st req =
     Inr (if datetime_lt db de then ([], Redirect (Search_price_url t b e))
          else ([Flash_date_range], Redirect Home_url))"
    using assms(1,2) db(1) de(1) by (rule home_dates)
  have "home st req = Inr ([], Redirect (Search_price_url t b e)) \<longleftrightarrow> toordinal db < toordinal de"
    unfolding h using ord by simp
  moreover have "home st req = Inr ([Flash_date_range], Redirect Home_url)
      \<longleftrightarrow> toordinal de \<le> toordinal db"
    unfolding h using ord by auto
  ultimately show ?thesis using db de ord by blast
qed

theorem home_date_range_check_witness:
  "validate_on_submit (Home_POST True (Some ''2330.TW'') (Some ''2023-01-01'') (Some ''2023-03-01''))
     = Some (''2330.TW'', ''2023-01-01'', ''2023-03-01'') \<and>
   ticker_format_ok ''2330.TW'' \<and>
   is_valid_date_format ''2023-01-01'' \<and> is_valid_date_format ''2023-03-01'' \<and>
   home empty_store (Home_POST True (Some ''2330.TW'') (Some ''2023-01-01'') (Some ''2023-03-01''))
     = Inr ([], Redirect (Search_price_url ''2330.TW'' ''2023-01-01'' ''2023-03-01'')) \<and>
   validate_on_submit (Home_POST True (Some ''2330.TW'') (Some ''2023-01-01'') (Some ''2023-01-01''))
     = Some (''2330.TW'', ''2023-01-01'', ''2023-01-01'') \<and>
   home empty_store (Home_POST True (Some ''2330.TW'') (Some ''2023-01-01'') (Some ''2023-01-01''))
     = Inr ([Flash_date_range], Redirect Home_url)"
proof -
  have v1: "validate_on_submit
      (Home_POST True (Some ''2330.TW'') (Some ''2023-01-01'') (Some ''2023-03-01''))
     = Some (''2330.TW'', ''2023-01-01'', ''2023-03-01'')"
    by (simp add: data_required_def py_strip_def py_isspace_def)
  have v2: "validate_on_submit
      (Home_POST True (Some ''2330.TW'') (Some ''2023-01-01'') (Some ''2023-01-01''))
     = Some (''2330.TW'', ''2023-01-01'', ''2023-01-01'')"
    by (simp add: data_required_def py_strip_def py_isspace_def)
  have t: "ticker_format_ok ''2330.TW''" by (simp add: ticker_format_ok_def)
  have pb: "strptime ''2023-01-01'' = Inr \<lparr>year = 2023, month = 1, day = 1\<rparr>" by code_simp
  have pe: "strptime ''2023-03-01'' = Inr \<lparr>year = 2023, month = 3, day = 1\<rparr>" by code_simp
  have fb: "is_valid_date_format ''2023-01-01''" by (simp add: is_valid_date_format_def pb)
  have fe: "is_valid_date_format ''2023-03-01''" by (simp add: is_valid_date_format_def pe)
  have ob: "toordinal \<lparr>year = 2023, month = 1, day = 1\<rparr> = 738521" by code_simp
  have oe: "toordinal \<lparr>year = 2023, month = 3, day = 1\<rparr> = 738580" by code_simp
  have "home empty_store
      (Home_POST True (Some ''2330.TW'') (Some ''2023-01-01'') (Some ''2023-03-01''))
     = Inr ([], Redirect (Search_price_url ''2330.TW'' ''2023-01-01'' ''2023-03-01''))"
    using home_date_range_check [OF v1 t fb fe, of empty_store] by (simp add: pb pe ob oe)
  moreover have "home empty_store
      (Home_POST True (Some ''2330.TW'') (Some ''2023-01-01'') (Some ''2023-01-01''))
     = Inr ([Flash_date_range], Redirect Home_url)"
    using home_date_range_check [OF v2 t fb fb, of empty_store] by (simp add: pb)
  ultimately show ?thesis using v1 v2 t fb fe by blast
qed

text \<open>
  C1. The validator returns True for \<open>2023-1-1\<close>, which is not of the pattern
  YYYY-MM-DD: the month and the day of \<open>%m\<close> and \<open>%d\<close> may be written with one digit,
  and the day with a blank before its digit. It returns False for \<open>2023-02-30\<close> and
  True for \<open>2023-01-01\<close>.
\<close>

theorem is_valid_date_format_accepts_short_fields:
  "is_valid_date_format ''2023-1-1'' \<and> \<not> exact_pattern ''2023-1-1'' \<and>
   strptime ''2023-1-1'' = Inr \<lparr>year = 2023, month = 1, day = 1\<rparr> \<and>
   is_valid_date_format ''2023-01- 1'' \<and> \<not> exact_pattern ''2023-01- 1'' \<and>
   \<not> is_valid_date_format ''2023-02-30'' \<and> exact_pattern ''2023-02-30'' \<and>
   is_valid_date_format ''2023-01-01'' \<and> exact_calendar_date ''2023-01-01''"
proof -
  have a: "strptime ''2023-1-1'' = Inr \<lparr>year = 2023, month = 1, day = 1\<rparr>" by code_simp
  have b: "strptime ''2023-01- 1'' = Inr \<lparr>year = 2023, month = 1, day = 1\<rparr>" by code_simp
  have c: "strptime ''2023-02-30'' = Inl ValueError" by code_simp
  have d: "strptime ''2023-01-01'' = Inr \<lparr>year = 2023, month = 1, day = 1\<rparr>" by code_simp
  have e: "\<not> exact_pattern ''2023-1-1''" "\<not> exact_pattern ''2023-01- 1''"
    "exact_pattern ''2023-02-30''"
    by (simp_all add: exact_pattern_def cls_digit_def)
  have f: "exact_calendar_date ''2023-01-01''" by code_simp
  from a b c d e f show ?thesis by (simp add: is_valid_date_format_def)
qed

end
